theory Spec2Isabelle
  imports Complex_Main "HOL-Library.Sublist"
begin

section \<open>The TIFF library and the process, as FormatTIFFgeneric.py sees them\<close>

text \<open>
  The module under verification is \<^verbatim>\<open>FormatTIFFgeneric.py\<close>. It decodes nothing itself:
  every question about a file is put to the \<^verbatim>\<open>tifffile\<close> library, which is not part of
  the repository. The library is therefore a parameter of the model: a function from a
  path to what \<^verbatim>\<open>tifffile.TiffFile(path)\<close> does, and each attribute the code reads
  either has a value or raises.

  Python exceptions are values of \<open>exn\<close>; a computation that may raise has a result of type
  \<open>exn + 'a\<close>, with \<open>Inl\<close> the exception that escapes.

  Three conventions hold throughout. Python strings are lists of characters. Assertions
  are executed, as they are unless the interpreter is started with \<^verbatim>\<open>-O\<close>. Paths are
  POSIX paths, with the slash as their only separator.
\<close>

datatype exn =
  TiffFileError | AssertionError | KeyError | IndexError | AttributeError | TypeError | OSError |
  OverflowError

type_synonym 'a result = "exn + 'a"

text \<open>
  The value of a tag. The library gives text for an ASCII tag (270 among them) and a
  mapping with string keys for the tags it has a reader for (the Olympus SIS tag 33560,
  whose \<^verbatim>\<open>cameraname\<close> entry is text). On a file that is not written as expected the
  value is of another kind: the bytes of an ASCII tag that do not decode, a number or a
  tuple for a tag written with a numeric type, or None.
\<close>

datatype tag_value =
  StrVal string
| BytesVal string
| NumVal int
| NoneVal
| TupleVal "tag_value list"
| MapVal "(string \<times> tag_value) list"

record page =
  shape :: "int list"
  tags :: "nat \<rightharpoonup> tag_value"

record tiff_file =
  pages :: "page list result"
  series :: "page list list result"

text \<open>
  \<open>tifffile\<close> is the module-level name bound by the guarded import at the top of the
  source: \<open>None\<close> when the import failed. \<open>environ\<close> is the process environment read by
  \<^verbatim>\<open>os.getenv\<close>.
\<close>

record sys =
  tifffile :: "(string \<Rightarrow> tiff_file result) option"
  environ :: "string \<rightharpoonup> string"

text \<open>
  What a predicate can change: the lines printed so far, and the container handles that
  are open, each named by the path it was opened on.
\<close>

record state =
  stdout :: "string list"
  open_handles :: "string list"

definition py_print :: "string \<Rightarrow> state \<Rightarrow> state" where
  "py_print msg st = st\<lparr>stdout := stdout st @ [msg]\<rparr>"

definition TiffFile ::
  "(string \<Rightarrow> tiff_file result) \<Rightarrow> string \<Rightarrow> state \<Rightarrow> tiff_file result \<times> state" where
  "TiffFile lib image_file st =
     (case lib image_file of
        Inl e \<Rightarrow> (Inl e, st)
      | Inr tif \<Rightarrow> (Inr tif, st\<lparr>open_handles := image_file # open_handles st\<rparr>))"

definition close :: "string \<Rightarrow> state \<Rightarrow> state" where
  "close image_file st = st\<lparr>open_handles := remove1 image_file (open_handles st)\<rparr>"

text \<open>\<^verbatim>\<open>seq[0]\<close>: the first element, IndexError on an empty sequence.\<close>

definition getitem0 :: "'a list \<Rightarrow> 'a result" where
  "getitem0 xs = (case xs of [] \<Rightarrow> Inl IndexError | x # _ \<Rightarrow> Inr x)"

section \<open>FormatTIFFgeneric.understand\<close>

text \<open>
  The body of the second \<^verbatim>\<open>try\<close>: the two assertions and the read of the first page.
  An assertion that fails raises AssertionError, and nothing after it is evaluated.
\<close>

definition understand_body :: "tiff_file \<Rightarrow> page result" where
  "understand_body tif =
     (case pages tif of
        Inl e \<Rightarrow> Inl e
      | Inr ps \<Rightarrow>
          if length ps \<noteq> 1 then Inl AssertionError
          else (case series tif of
                  Inl e \<Rightarrow> Inl e
                | Inr ss \<Rightarrow>
                    if length ss \<noteq> 1 then Inl AssertionError
                    else getitem0 ps))"

definition understand :: "sys \<Rightarrow> string \<Rightarrow> state \<Rightarrow> bool result \<times> state" where
  "understand sy image_file st =
     (case tifffile sy of
        None \<Rightarrow>
          (Inr False,
           py_print ''FormatTIFFgeneric is installed but the required library tifffile is not available'' st)
      | Some lib \<Rightarrow>
          (case TiffFile lib image_file st of
             (Inl e, st1) \<Rightarrow> if e = TiffFileError then (Inr False, st1) else (Inl e, st1)
           | (Inr tif, st1) \<Rightarrow>
               (let body = understand_body tif;
                    st2 = close image_file st1
                in case body of
                     Inl e \<Rightarrow>
                       if e = AssertionError \<or> e = KeyError then (Inr False, st2)
                       else (Inl e, st2)
                   | Inr page \<Rightarrow> (Inr True, st2))))"

section \<open>The specialized predicates\<close>

text \<open>
  \<^verbatim>\<open>with tifffile.TiffFile(image_file) as tif: ...\<close> as the six subclasses write it. The
  name \<^verbatim>\<open>tifffile\<close> is used without a test: when the import failed it is None, and
  the attribute access raises AttributeError. An exception of the constructor escapes
  with nothing opened. Once the handle is open, leaving the block closes it, whether by
  \<^verbatim>\<open>return\<close>, by falling through, or by an exception (which is not suppressed).
\<close>

definition with_TiffFile ::
  "sys \<Rightarrow> string \<Rightarrow> (tiff_file \<Rightarrow> bool result) \<Rightarrow> state \<Rightarrow> bool result \<times> state" where
  "with_TiffFile sy image_file body st =
     (case tifffile sy of
        None \<Rightarrow> (Inl AttributeError, st)
      | Some lib \<Rightarrow>
          (case TiffFile lib image_file st of
             (Inl e, st1) \<Rightarrow> (Inl e, st1)
           | (Inr tif, st1) \<Rightarrow> (body tif, close image_file st1)))"

text \<open>\<^verbatim>\<open>page = tif.pages[0]\<close>\<close>

definition first_page :: "tiff_file \<Rightarrow> page result" where
  "first_page tif = (case pages tif of Inl e \<Rightarrow> Inl e | Inr ps \<Rightarrow> getitem0 ps)"

text \<open>\<^verbatim>\<open>page.tags[k]\<close> (and its \<^verbatim>\<open>.value\<close>): KeyError when the page has no such tag.\<close>

definition tag :: "page \<Rightarrow> nat \<Rightarrow> tag_value result" where
  "tag p k = (case tags p k of None \<Rightarrow> Inl KeyError | Some v \<Rightarrow> Inr v)"

text \<open>
  \<^verbatim>\<open>x in v\<close> for a string \<open>x\<close>. On a string, \<open>x\<close> occurs in it as a contiguous
  substring; on a tuple, \<open>x\<close> is equal to one of its elements; on a mapping, \<open>x\<close> is one
  of its keys. Bytes accept only bytes on the left, and a number and None are not
  containers: TypeError.
\<close>

fun py_in :: "string \<Rightarrow> tag_value \<Rightarrow> bool result" where
  "py_in x (StrVal s) = Inr (sublist x s)"
| "py_in x (BytesVal b) = Inl TypeError"
| "py_in x (NumVal n) = Inl TypeError"
| "py_in x NoneVal = Inl TypeError"
| "py_in x (TupleVal vs) = Inr (StrVal x \<in> set vs)"
| "py_in x (MapVal m) = Inr (x \<in> set (map fst m))"

text \<open>
  \<^verbatim>\<open>v[k]\<close> for a string key \<open>k\<close>: only a mapping can be indexed by a string, and a
  mapping without the key raises KeyError; on every other kind of value it is a
  TypeError.
\<close>

fun getitem :: "tag_value \<Rightarrow> string \<Rightarrow> tag_value result" where
  "getitem (MapVal m) k = (case map_of m k of None \<Rightarrow> Inl KeyError | Some v \<Rightarrow> Inr v)"
| "getitem v k = Inl TypeError"

text \<open>The kinds of value on which \<^verbatim>\<open>x in v\<close> gives an answer.\<close>

fun accepts_in :: "tag_value \<Rightarrow> bool" where
  "accepts_in (StrVal s) = True"
| "accepts_in (TupleVal vs) = True"
| "accepts_in (MapVal m) = True"
| "accepts_in v = False"

text \<open>
  The block shared by the Merlin, Medipix, UED and UED-BNL predicates: the first page
  and a comparison of its shape, with \<^verbatim>\<open>return True\<close> after the block.
\<close>

definition shape_body :: "int list \<Rightarrow> tiff_file \<Rightarrow> bool result" where
  "shape_body sh tif =
     (case first_page tif of
        Inl e \<Rightarrow> Inl e
      | Inr page \<Rightarrow> if shape page \<noteq> sh then Inr False else Inr True)"

definition Merlin_understand :: "sys \<Rightarrow> string \<Rightarrow> state \<Rightarrow> bool result \<times> state" where
  "Merlin_understand sy image_file st =
     (if environ sy ''QD_MERLIN_TIFF'' = None then (Inr False, st)
      else with_TiffFile sy image_file (shape_body [512, 512]) st)"

definition ASI_body :: "tiff_file \<Rightarrow> bool result" where
  "ASI_body tif =
     (case first_page tif of
        Inl e \<Rightarrow> Inl e
      | Inr page \<Rightarrow>
          if shape page \<noteq> [516, 516] then Inr False
          else (case tag page 270 of
                  Inl e \<Rightarrow> Inl e
                | Inr ImageDescription \<Rightarrow>
                    (case py_in ''ImageCameraName: timepix'' ImageDescription of
                       Inl e \<Rightarrow> Inl e
                     | Inr found \<Rightarrow> if \<not> found then Inr False else Inr True)))"

definition ASI_understand :: "sys \<Rightarrow> string \<Rightarrow> state \<Rightarrow> bool result \<times> state" where
  "ASI_understand sy image_file st = with_TiffFile sy image_file ASI_body st"

definition FEI_Tecnai_G2_body :: "tiff_file \<Rightarrow> bool result" where
  "FEI_Tecnai_G2_body tif =
     (case first_page tif of
        Inl e \<Rightarrow> Inl e
      | Inr page \<Rightarrow>
          if shape page \<noteq> [1024, 1024] then Inr False
          else (case tag page 33560 of
                  Inl e \<Rightarrow> Inl e
                | Inr OlympusSIS \<Rightarrow>
                    (case getitem OlympusSIS ''cameraname'' of
                       Inl e \<Rightarrow> Inl e
                     | Inr cameraname \<Rightarrow>
                         (case py_in ''Veleta'' cameraname of
                            Inl e \<Rightarrow> Inl e
                          | Inr found \<Rightarrow> if \<not> found then Inr False else Inr True))))"

definition FEI_Tecnai_G2_understand :: "sys \<Rightarrow> string \<Rightarrow> state \<Rightarrow> bool result \<times> state" where
  "FEI_Tecnai_G2_understand sy image_file st = with_TiffFile sy image_file FEI_Tecnai_G2_body st"

definition Medipix_understand :: "sys \<Rightarrow> string \<Rightarrow> state \<Rightarrow> bool result \<times> state" where
  "Medipix_understand sy image_file st = with_TiffFile sy image_file (shape_body [514, 514]) st"

definition UED_understand :: "sys \<Rightarrow> string \<Rightarrow> state \<Rightarrow> bool result \<times> state" where
  "UED_understand sy image_file st = with_TiffFile sy image_file (shape_body [1300, 1340]) st"

definition UED_BNL_understand :: "sys \<Rightarrow> string \<Rightarrow> state \<Rightarrow> bool result \<times> state" where
  "UED_BNL_understand sy image_file st =
     (if environ sy ''UED_BNL_TIFF'' = None then (Inr False, st)
      else with_TiffFile sy image_file (shape_body [512, 512]) st)"

section \<open>FormatTIFFgeneric._scan\<close>

text \<open>
  \<^verbatim>\<open>os.path.split(p)\<close> of the POSIX path module: \<open>i\<close> is one past the last slash (0
  when there is none), the tail is what follows it, and the head loses its trailing
  slashes unless it consists of slashes only.
\<close>

definition rstrip :: "char \<Rightarrow> string \<Rightarrow> string" where
  "rstrip c s = rev (dropWhile (\<lambda>x. x = c) (rev s))"

definition os_path_split :: "string \<Rightarrow> string \<times> string" where
  "os_path_split p =
     (let i = length p - length (takeWhile (\<lambda>c. c \<noteq> CHR ''/'') (rev p));
          head = take i p;
          tail = drop i p
      in (if head \<noteq> [] \<and> head \<noteq> replicate (length head) CHR ''/''
          then rstrip CHR ''/'' head else head,
          tail))"

text \<open>
  \<^verbatim>\<open>s.split(sep)\<close> for a separator of one character: the pieces between the occurrences
  of \<open>sep\<close>, of which there is always at least one (the empty string splits into one
  empty piece).
\<close>

fun str_split :: "char \<Rightarrow> string \<Rightarrow> string list" where
  "str_split sep [] = [[]]"
| "str_split sep (c # cs) =
     (if c = sep then [] # str_split sep cs
      else (case str_split sep cs of
              [] \<Rightarrow> [[c]]
            | w # ws \<Rightarrow> (c # w) # ws))"

definition is_digit :: "char \<Rightarrow> bool" where
  "is_digit c = (c \<in> set ''0123456789'')"

text \<open>
  \<^verbatim>\<open>re.match(".*?([0-9]+)$", s)\<close>, as the text of group 1, or None when there is no
  match. The match is anchored at the start of \<open>s\<close>. The lazy \<^verbatim>\<open>.*?\<close> first takes no
  character and then one more at a time, and a dot never takes a line feed (the pattern is
  compiled without DOTALL). At each position the group takes the whole run of digits
  found there (a shorter run would be followed by a digit, where \<^verbatim>\<open>$\<close> fails), and
  \<^verbatim>\<open>$\<close> holds at the end of the string and just before a line feed that ends it.
\<close>

definition digits_to_end :: "string \<Rightarrow> string option" where
  "digits_to_end s =
     (let g = takeWhile is_digit s;
          r = dropWhile is_digit s
      in if g \<noteq> [] \<and> (r = [] \<or> r = [CHR 0x0A]) then Some g else None)"

fun re_match :: "string \<Rightarrow> string option" where
  "re_match [] = None"
| "re_match (c # cs) =
     (case digits_to_end (c # cs) of
        Some g \<Rightarrow> Some g
      | None \<Rightarrow> if c = CHR 0x0A then None else re_match cs)"

text \<open>
  \<^verbatim>\<open>int(g)\<close> on a string of ASCII digits: its value in base ten. (The interpreter's
  limit on the number of digits, a setting that recent versions have, is not modelled.)
\<close>

definition digit_val :: "char \<Rightarrow> int" where
  "digit_val c = int (of_char c) - 48"

definition py_int :: "string \<Rightarrow> int" where
  "py_int g = foldl (\<lambda>a c. 10 * a + digit_val c) 0 g"

text \<open>
  A Python float is a binary64 number, here the real number it denotes. In
  \<^verbatim>\<open>frame * 0.5\<close> the integer is first converted to a float: to the nearest number with
  53 significant bits, a tie going to the even one, and with OverflowError when that
  number is \<open>2 ^ 1024\<close> or more. \<open>shift53 m\<close> is the number of low bits of \<open>m\<close> that
  do not fit. The product with 0.5 is then exact.
\<close>

function shift53 :: "nat \<Rightarrow> nat" where
  "shift53 m = (if m < 2 ^ 53 then 0 else Suc (shift53 (m div 2)))"
  by pat_completeness auto
termination
  by (relation "measure id") auto

declare shift53.simps [simp del]

definition float_of_int :: "int \<Rightarrow> real result" where
  "float_of_int n =
     (let m = nat \<bar>n\<bar>;
          e = shift53 m;
          q = m div 2 ^ e;
          r = m mod 2 ^ e;
          q' = (if 2 * r > 2 ^ e \<or> (2 * r = 2 ^ e \<and> odd q) then q + 1 else q);
          v = q' * 2 ^ e
      in if v \<ge> 2 ^ 1024 then Inl OverflowError
         else Inr (if n < 0 then - real v else real v))"

text \<open>The arguments that \<^verbatim>\<open>_scan\<close> hands to the host's \<^verbatim>\<open>make_scan\<close>.\<close>

record scan =
  image_range :: "int \<times> int"
  exposure_times :: real
  oscillation :: "real \<times> real"
  epochs :: "int list"
  deg :: bool

definition make_scan :: "int \<times> int \<Rightarrow> real \<Rightarrow> real \<times> real \<Rightarrow> int list \<Rightarrow> bool \<Rightarrow> scan" where
  "make_scan r t osc es d =
     \<lparr>image_range = r, exposure_times = t, oscillation = osc, epochs = es, deg = d\<rparr>"

text \<open>
  The string \<open>s\<close> of the source: the last piece of the file name between underscores,
  up to its first dot.
\<close>

definition scan_substring :: "string \<Rightarrow> string" where
  "scan_substring image_file =
     (let fname = snd (os_path_split image_file)
      in hd (str_split CHR ''.'' (last (str_split CHR ''_'' fname))))"

text \<open>
  The \<^verbatim>\<open>try\<close> around the match: without a match \<^verbatim>\<open>.group\<close> is looked up on None,
  and the AttributeError handler sets the index to 1.
\<close>

definition scan_index :: "string \<Rightarrow> int" where
  "scan_index image_file =
     (case re_match (scan_substring image_file) of
        Some g \<Rightarrow> py_int g
      | None \<Rightarrow> 1)"

definition FormatTIFFgeneric_scan :: "string \<Rightarrow> scan result" where
  "FormatTIFFgeneric_scan image_file =
     (let index = scan_index image_file;
          exposure_times = 0.0;
          frame = index - 1
      in case float_of_int frame of
           Inl e \<Rightarrow> Inl e
         | Inr x \<Rightarrow>
             (let oscillation = (x * 0.5, 0.5);
                  epochs = [0]
              in Inr (make_scan (index, index) exposure_times oscillation epochs True)))"

text \<open>
  The reading of the file name that the source's comment intends ("the final number before
  the extension is the image number"): the longest run of digits that ends \<open>s\<close>.
\<close>

definition trailing_digits :: "string \<Rightarrow> string" where
  "trailing_digits s = rev (takeWhile is_digit (rev s))"

section \<open>The detectors\<close>

text \<open>The arguments of the host's \<^verbatim>\<open>detector_factory.simple\<close>, in its order.\<close>

record detector =
  sensor :: string
  distance :: real
  beam_centre :: "real list"
  fast_direction :: string
  slow_direction :: string
  pixel_size :: "real \<times> real"
  image_size :: "int \<times> int"
  trusted_range :: "int \<times> int"

definition simple ::
  "string \<Rightarrow> real \<Rightarrow> real list \<Rightarrow> string \<Rightarrow> string \<Rightarrow> real \<times> real \<Rightarrow> int \<times> int \<Rightarrow> int \<times> int
     \<Rightarrow> detector" where
  "simple s d b f sl px im tr =
     \<lparr>sensor = s, distance = d, beam_centre = b, fast_direction = f, slow_direction = sl,
      pixel_size = px, image_size = im, trusted_range = tr\<rparr>"

text \<open>\<^verbatim>\<open>[(p * i) / 2 for p, i in zip(pixel_size, image_size)]\<close> on two pairs.\<close>

definition centre_of :: "real \<times> real \<Rightarrow> int \<times> int \<Rightarrow> real list" where
  "centre_of px im =
     map (\<lambda>(p, i). (p * real_of_int i) / 2) (zip [fst px, snd px] [fst im, snd im])"

definition Merlin_detector :: detector where
  "Merlin_detector =
     (let pixel_size = (0.055, 0.055);
          image_size = (512, 512);
          dyn_range = (12 :: nat);
          trusted_range = (- 1, 2 ^ dyn_range - 1);
          beam_centre = centre_of pixel_size image_size
      in simple ''PAD'' 2440 beam_centre ''+x'' ''-y'' pixel_size image_size trusted_range)"

definition ASI_detector :: detector where
  "ASI_detector =
     (let pixel_size = (0.055, 0.055);
          image_size = (516, 516);
          dyn_range = (20 :: nat);
          trusted_range = (- 1, 2 ^ dyn_range - 1);
          beam_centre = centre_of pixel_size image_size
      in simple ''PAD'' 2440 beam_centre ''+x'' ''-y'' pixel_size image_size trusted_range)"

definition FEI_Tecnai_G2_detector :: detector where
  "FEI_Tecnai_G2_detector =
     (let pixel_size = (0.026, 0.026);
          image_size = (1024, 1024);
          dyn_range = (14 :: nat);
          trusted_range = (- 1, 2 ^ dyn_range - 1);
          beam_centre = centre_of pixel_size image_size
      in simple ''PAD'' 2440 beam_centre ''+x'' ''-y'' pixel_size image_size trusted_range)"

definition Medipix_detector :: detector where
  "Medipix_detector =
     (let pixel_size = (0.055, 0.055);
          image_size = (514, 514);
          dyn_range = (16 :: nat);
          trusted_range = (- 1, 2 ^ dyn_range - 1);
          beam_centre = centre_of pixel_size image_size
      in simple ''PAD'' 2440 beam_centre ''+x'' ''-y'' pixel_size image_size trusted_range)"

definition UED_detector :: detector where
  "UED_detector =
     (let pixel_size = (0.060, 0.060);
          image_size = (1300, 1340);
          dyn_range = (20 :: nat);
          trusted_range = (- 1, 2 ^ dyn_range - 1);
          beam_centre = centre_of pixel_size image_size
      in simple ''PAD'' 2440 beam_centre ''+x'' ''-y'' pixel_size image_size trusted_range)"

definition UED_BNL_detector :: detector where
  "UED_BNL_detector =
     (let pixel_size = (0.016, 0.016);
          image_size = (512, 512);
          dyn_range = (20 :: nat);
          trusted_range = (- 1, 2 ^ dyn_range - 1);
          beam_centre = centre_of pixel_size image_size
      in simple ''CCD'' 3480 beam_centre ''+x'' ''-y'' pixel_size image_size trusted_range)"

section \<open>Concrete files\<close>

definition a_page :: "int list \<Rightarrow> (nat \<times> tag_value) list \<Rightarrow> page" where
  "a_page sh ts = \<lparr>shape = sh, tags = map_of ts\<rparr>"

definition a_tiff :: "page list \<Rightarrow> nat \<Rightarrow> tiff_file" where
  "a_tiff ps n = \<lparr>pages = Inr ps, series = Inr (replicate n ps)\<rparr>"

definition a_sys :: "tiff_file result \<Rightarrow> (string \<times> string) list \<Rightarrow> sys" where
  "a_sys r env = \<lparr>tifffile = Some (\<lambda>_. r), environ = map_of env\<rparr>"

definition no_tifffile :: sys where
  "no_tifffile = \<lparr>tifffile = None, environ = Map.empty\<rparr>"

definition st0 :: state where
  "st0 = \<lparr>stdout = [], open_handles = []\<rparr>"

section \<open>The base predicate\<close>

lemma understand_body_True:
  "(\<exists>p. understand_body tif = Inr p) \<longleftrightarrow>
     (\<exists>ps ss. pages tif = Inr ps \<and> series tif = Inr ss \<and> length ps = 1 \<and> length ss = 1)"
  by (auto simp: understand_body_def getitem0_def split: sum.splits list.splits)

text \<open>
  Claim C1. On a container whose page count is not 1, or whose series count is not 1,
  \<open>understand\<close> returns False; it returns True exactly when the library is there, the
  file opens, and both counts are 1.
\<close>

theorem understand_counts:
  "(fst (understand sy image_file st) = Inr True \<longleftrightarrow>
      (\<exists>lib tif ps ss. tifffile sy = Some lib \<and> lib image_file = Inr tif \<and>
         pages tif = Inr ps \<and> series tif = Inr ss \<and> length ps = 1 \<and> length ss = 1)) \<and>
   (\<forall>lib tif ps. tifffile sy = Some lib \<and> lib image_file = Inr tif \<and> pages tif = Inr ps \<longrightarrow>
      (length ps \<noteq> 1 \<longrightarrow> fst (understand sy image_file st) = Inr False) \<and>
      (\<forall>ss. series tif = Inr ss \<and> length ss \<noteq> 1 \<longrightarrow>
         fst (understand sy image_file st) = Inr False))"
proof (intro conjI allI impI)
  show "fst (understand sy image_file st) = Inr True \<longleftrightarrow>
      (\<exists>lib tif ps ss. tifffile sy = Some lib \<and> lib image_file = Inr tif \<and>
         pages tif = Inr ps \<and> series tif = Inr ss \<and> length ps = 1 \<and> length ss = 1)"
  proof (cases "tifffile sy")
    case None
    then show ?thesis by (simp add: understand_def)
  next
    case (Some lib)
    show ?thesis
    proof (cases "lib image_file")
      case (Inl e)
      with Some show ?thesis by (simp add: understand_def TiffFile_def)
    next
      case (Inr tif)
      have "fst (understand sy image_file st) = Inr True \<longleftrightarrow> (\<exists>p. understand_body tif = Inr p)"
        using Some Inr by (auto simp: understand_def TiffFile_def Let_def split: sum.splits)
      with Some Inr show ?thesis by (simp add: understand_body_True)
    qed
  qed
next
  fix lib tif ps
  assume h: "tifffile sy = Some lib \<and> lib image_file = Inr tif \<and> pages tif = Inr ps"
    and n: "length ps \<noteq> 1"
  then have "understand_body tif = Inl AssertionError"
    by (simp add: understand_body_def)
  with h show "fst (understand sy image_file st) = Inr False"
    by (simp add: understand_def TiffFile_def Let_def)
next
  fix lib tif ps ss
  assume h: "tifffile sy = Some lib \<and> lib image_file = Inr tif \<and> pages tif = Inr ps"
    and n: "series tif = Inr ss \<and> length ss \<noteq> 1"
  then have "understand_body tif = Inl AssertionError"
    by (simp add: understand_body_def)
  with h show "fst (understand sy image_file st) = Inr False"
    by (simp add: understand_def TiffFile_def Let_def)
qed

text \<open>
  A file of two pages in one series, and a file of one page in two series, are both
  refused; a file of one page in one series is accepted.
\<close>

theorem understand_counts_witness:
  "fst (understand (a_sys (Inr (a_tiff [a_page [512, 512] [], a_page [512, 512] []] 1)) [])
         ''a.tif'' st0) = Inr False \<and>
   fst (understand (a_sys (Inr (a_tiff [a_page [512, 512] []] 2)) []) ''a.tif'' st0) = Inr False \<and>
   fst (understand (a_sys (Inr (a_tiff [a_page [512, 512] []] 1)) []) ''a.tif'' st0) = Inr True"
proof (intro conjI)
  let ?p = "a_page [512, 512] []"
  show "fst (understand (a_sys (Inr (a_tiff [?p, ?p] 1)) []) ''a.tif'' st0) = Inr False"
    using understand_counts [of "a_sys (Inr (a_tiff [?p, ?p] 1)) []" "''a.tif''" st0]
    by (simp add: a_sys_def a_tiff_def)
  show "fst (understand (a_sys (Inr (a_tiff [?p] 2)) []) ''a.tif'' st0) = Inr False"
    using understand_counts [of "a_sys (Inr (a_tiff [?p] 2)) []" "''a.tif''" st0]
    by (simp add: a_sys_def a_tiff_def)
  show "fst (understand (a_sys (Inr (a_tiff [?p] 1)) []) ''a.tif'' st0) = Inr True"
    using understand_counts [of "a_sys (Inr (a_tiff [?p] 1)) []" "''a.tif''" st0]
    by (simp add: a_sys_def a_tiff_def)
qed

text \<open>
  Claim C2. Without the library, \<open>understand\<close> prints its diagnostic and returns False;
  when opening the file raises TiffFileError it returns False. No exception escapes in
  either case.
\<close>

theorem understand_unavailable_or_unreadable:
  "(tifffile sy = None \<longrightarrow>
      fst (understand sy image_file st) = Inr False \<and>
      stdout (snd (understand sy image_file st)) = stdout st @
        [''FormatTIFFgeneric is installed but the required library tifffile is not available'']) \<and>
   (\<forall>lib. tifffile sy = Some lib \<and> lib image_file = Inl TiffFileError \<longrightarrow>
      fst (understand sy image_file st) = Inr False)"
  by (simp add: understand_def py_print_def TiffFile_def)

theorem understand_unavailable_or_unreadable_witness:
  "fst (understand no_tifffile ''a.tif'' st0) = Inr False \<and>
   stdout (snd (understand no_tifffile ''a.tif'' st0)) =
     [''FormatTIFFgeneric is installed but the required library tifffile is not available''] \<and>
   fst (understand (a_sys (Inl TiffFileError) []) ''a.txt'' st0) = Inr False"
proof (intro conjI)
  show "fst (understand no_tifffile ''a.tif'' st0) = Inr False"
    using understand_unavailable_or_unreadable [of no_tifffile "''a.tif''" st0]
    by (simp add: no_tifffile_def)
  show "stdout (snd (understand no_tifffile ''a.tif'' st0)) =
     [''FormatTIFFgeneric is installed but the required library tifffile is not available'']"
    using understand_unavailable_or_unreadable [of no_tifffile "''a.tif''" st0]
    by (simp add: no_tifffile_def st0_def)
  show "fst (understand (a_sys (Inl TiffFileError) []) ''a.txt'' st0) = Inr False"
    using understand_unavailable_or_unreadable [of "a_sys (Inl TiffFileError) []" "''a.txt''" st0]
    by (simp add: a_sys_def)
qed

text \<open>
  Claim C8. Whatever \<open>understand\<close> does (return True, return False, or let an exception
  of the library escape), the handles open afterwards are the handles that were open
  before: the handle it opened has been closed.
\<close>

theorem understand_closes_handle:
  "open_handles (snd (understand sy image_file st)) = open_handles st"
  by (simp add: understand_def py_print_def TiffFile_def close_def Let_def
      split: option.splits sum.splits)

text \<open>
  The three kinds of exit at concrete files, starting with no handle open. Opening
  does add a handle (first line); the predicate ends with none open when it accepts, when
  it refuses a file of two pages, and when reading the series raises an error that it
  does not catch.
\<close>

theorem understand_closes_handle_witness:
  "open_handles (snd (TiffFile (\<lambda>_. Inr (a_tiff [a_page [512, 512] []] 1)) ''a.tif'' st0))
     = [''a.tif''] \<and>
   understand (a_sys (Inr (a_tiff [a_page [512, 512] []] 1)) []) ''a.tif'' st0
     = (Inr True, st0) \<and>
   understand (a_sys (Inr (a_tiff [a_page [512, 512] [], a_page [512, 512] []] 1)) [])
       ''a.tif'' st0
     = (Inr False, st0) \<and>
   fst (understand (a_sys (Inr \<lparr>pages = Inr [a_page [512, 512] []], series = Inl OSError\<rparr>) [])
          ''a.tif'' st0)
     = Inl OSError \<and>
   open_handles (snd (understand
       (a_sys (Inr \<lparr>pages = Inr [a_page [512, 512] []], series = Inl OSError\<rparr>) [])
          ''a.tif'' st0))
     = []"
proof (intro conjI)
  let ?p = "a_page [512, 512] []"
  let ?e = "a_sys (Inr \<lparr>pages = Inr [?p], series = Inl OSError\<rparr>) []"
  show "open_handles (snd (TiffFile (\<lambda>_. Inr (a_tiff [?p] 1)) ''a.tif'' st0)) = [''a.tif'']"
    by (simp add: TiffFile_def st0_def)
  show "understand (a_sys (Inr (a_tiff [?p] 1)) []) ''a.tif'' st0 = (Inr True, st0)"
    by (simp add: understand_def TiffFile_def close_def understand_body_def getitem0_def
        a_sys_def a_tiff_def st0_def)
  show "understand (a_sys (Inr (a_tiff [?p, ?p] 1)) []) ''a.tif'' st0 = (Inr False, st0)"
    by (simp add: understand_def TiffFile_def close_def understand_body_def getitem0_def
        a_sys_def a_tiff_def st0_def)
  show "fst (understand ?e ''a.tif'' st0) = Inl OSError"
    by (simp add: understand_def TiffFile_def understand_body_def a_sys_def)
  show "open_handles (snd (understand ?e ''a.tif'' st0)) = []"
    using understand_closes_handle [of ?e "''a.tif''" st0] by (simp add: st0_def)
qed

section \<open>The specialized predicates: what they check\<close>

lemma with_TiffFile_opened:
  "tifffile sy = Some lib \<Longrightarrow> lib image_file = Inr tif \<Longrightarrow>
   with_TiffFile sy image_file body st = (body tif, st)"
  by (simp add: with_TiffFile_def TiffFile_def close_def)

lemma with_TiffFile_True:
  "fst (with_TiffFile sy image_file body st) = Inr True \<longleftrightarrow>
     (\<exists>lib tif. tifffile sy = Some lib \<and> lib image_file = Inr tif \<and> body tif = Inr True)"
  by (auto simp: with_TiffFile_def TiffFile_def split: option.splits sum.splits)

lemma first_page_Cons: "pages tif = Inr (p # ps) \<Longrightarrow> first_page tif = Inr p"
  by (simp add: first_page_def getitem0_def)

lemma first_page_Inr:
  "first_page tif = Inr p \<longleftrightarrow> (\<exists>ps. pages tif = Inr (p # ps))"
  by (auto simp: first_page_def getitem0_def split: sum.splits list.splits)

lemma shape_body_True:
  "shape_body sh tif = Inr True \<longleftrightarrow> (\<exists>p ps. pages tif = Inr (p # ps) \<and> shape p = sh)"
  by (auto simp: shape_body_def first_page_Inr first_page_Cons split: sum.splits)

lemma shape_body_Cons:
  "pages tif = Inr (p # ps) \<Longrightarrow> shape_body sh tif = Inr (shape p = sh)"
  by (simp add: shape_body_def first_page_Cons)

text \<open>
  Claim C5. With \<^verbatim>\<open>QD_MERLIN_TIFF\<close> unset the Merlin predicate returns False whatever
  the library, the file and its content are, and touches nothing. With the variable set
  (to any value) it returns True exactly when the file opens with a first page of shape
  512 x 512; on every file that has a first page its answer is that comparison.
\<close>

theorem Merlin_understand_gate:
  "(environ sy ''QD_MERLIN_TIFF'' = None \<longrightarrow>
      Merlin_understand sy image_file st = (Inr False, st)) \<and>
   (\<forall>v. environ sy ''QD_MERLIN_TIFF'' = Some v \<longrightarrow>
      (fst (Merlin_understand sy image_file st) = Inr True \<longleftrightarrow>
         (\<exists>lib tif p ps. tifffile sy = Some lib \<and> lib image_file = Inr tif \<and>
            pages tif = Inr (p # ps) \<and> shape p = [512, 512])) \<and>
      (\<forall>lib tif p ps. tifffile sy = Some lib \<and> lib image_file = Inr tif \<and>
            pages tif = Inr (p # ps) \<longrightarrow>
         fst (Merlin_understand sy image_file st) = Inr (shape p = [512, 512])))"
proof (intro conjI allI impI)
  assume "environ sy ''QD_MERLIN_TIFF'' = None"
  then show "Merlin_understand sy image_file st = (Inr False, st)"
    by (simp add: Merlin_understand_def)
next
  fix v assume "environ sy ''QD_MERLIN_TIFF'' = Some v"
  then have M: "Merlin_understand sy image_file st =
      with_TiffFile sy image_file (shape_body [512, 512]) st"
    by (simp add: Merlin_understand_def)
  show "fst (Merlin_understand sy image_file st) = Inr True \<longleftrightarrow>
         (\<exists>lib tif p ps. tifffile sy = Some lib \<and> lib image_file = Inr tif \<and>
            pages tif = Inr (p # ps) \<and> shape p = [512, 512])"
    unfolding M with_TiffFile_True shape_body_True by blast
  fix lib tif p ps
  assume "tifffile sy = Some lib \<and> lib image_file = Inr tif \<and> pages tif = Inr (p # ps)"
  then show "fst (Merlin_understand sy image_file st) = Inr (shape p = [512, 512])"
    unfolding M by (simp add: with_TiffFile_opened shape_body_Cons)
qed

theorem Merlin_understand_gate_witness:
  "Merlin_understand (a_sys (Inr (a_tiff [a_page [512, 512] []] 1)) []) ''a.tif'' st0
     = (Inr False, st0) \<and>
   fst (Merlin_understand (a_sys (Inr (a_tiff [a_page [512, 512] []] 1))
          [(''QD_MERLIN_TIFF'', ''1'')]) ''a.tif'' st0) = Inr True \<and>
   fst (Merlin_understand (a_sys (Inr (a_tiff [a_page [514, 514] []] 1))
          [(''QD_MERLIN_TIFF'', '''')]) ''a.tif'' st0) = Inr False"
proof (intro conjI)
  show "Merlin_understand (a_sys (Inr (a_tiff [a_page [512, 512] []] 1)) []) ''a.tif'' st0
     = (Inr False, st0)"
    using Merlin_understand_gate
      [of "a_sys (Inr (a_tiff [a_page [512, 512] []] 1)) []" "''a.tif''" st0]
    by (simp add: a_sys_def)
  show "fst (Merlin_understand (a_sys (Inr (a_tiff [a_page [512, 512] []] 1))
          [(''QD_MERLIN_TIFF'', ''1'')]) ''a.tif'' st0) = Inr True"
    using Merlin_understand_gate
      [of "a_sys (Inr (a_tiff [a_page [512, 512] []] 1)) [(''QD_MERLIN_TIFF'', ''1'')]"
          "''a.tif''" st0]
    by (simp add: a_sys_def a_tiff_def a_page_def)
  show "fst (Merlin_understand (a_sys (Inr (a_tiff [a_page [514, 514] []] 1))
          [(''QD_MERLIN_TIFF'', '''')]) ''a.tif'' st0) = Inr False"
    using Merlin_understand_gate
      [of "a_sys (Inr (a_tiff [a_page [514, 514] []] 1)) [(''QD_MERLIN_TIFF'', '''')]"
          "''a.tif''" st0]
    by (simp add: a_sys_def a_tiff_def a_page_def)
qed

lemma with_TiffFile_Inr:
  "fst (with_TiffFile sy image_file body st) = Inr b \<longleftrightarrow>
     (\<exists>lib tif. tifffile sy = Some lib \<and> lib image_file = Inr tif \<and> body tif = Inr b)"
  by (auto simp: with_TiffFile_def TiffFile_def split: option.splits sum.splits)

lemma shape_body_Inr:
  "(\<exists>b. shape_body sh tif = Inr b) \<longleftrightarrow> (\<exists>p ps. pages tif = Inr (p # ps))"
  by (auto simp: shape_body_def first_page_Inr first_page_Cons split: sum.splits)

lemma with_shape_body_Inr:
  "(\<exists>b. fst (with_TiffFile sy image_file (shape_body sh) st) = Inr b) \<longleftrightarrow>
     (\<exists>lib tif p ps. tifffile sy = Some lib \<and> lib image_file = Inr tif \<and>
        pages tif = Inr (p # ps))"
proof -
  have "(\<exists>b. fst (with_TiffFile sy image_file (shape_body sh) st) = Inr b) \<longleftrightarrow>
      (\<exists>lib tif. tifffile sy = Some lib \<and> lib image_file = Inr tif \<and>
         (\<exists>b. shape_body sh tif = Inr b))"
    unfolding with_TiffFile_Inr by blast
  then show ?thesis
    unfolding shape_body_Inr by blast
qed

lemma found_result:
  "(case r of Inl e \<Rightarrow> Inl e | Inr found \<Rightarrow> if \<not> found then Inr False else Inr True) = r"
  by (cases r) auto

lemma py_in_accepts: "(\<exists>b. py_in x v = Inr b) \<longleftrightarrow> accepts_in v"
  by (cases v) auto

lemma py_in_refuses: "\<not> accepts_in v \<Longrightarrow> py_in x v = Inl TypeError"
  by (cases v) auto

lemma py_in_Inr_accepts: "py_in x v = Inr b \<Longrightarrow> accepts_in v"
  by (cases v) auto

lemma accepts_py_in: "accepts_in v \<Longrightarrow> \<exists>b. py_in x v = Inr b"
  by (cases v) auto

lemma ASI_body_Cons:
  "pages tif = Inr (p # ps) \<Longrightarrow>
   ASI_body tif =
     (if shape p \<noteq> [516, 516] then Inr False
      else case tags p 270 of
             None \<Rightarrow> Inl KeyError
           | Some v \<Rightarrow> py_in ''ImageCameraName: timepix'' v)"
  by (simp add: ASI_body_def first_page_Cons tag_def found_result split: option.splits)

lemma ASI_body_no_page:
  "\<not> (\<exists>p ps. pages tif = Inr (p # ps)) \<Longrightarrow> \<exists>e. ASI_body tif = Inl e"
  by (cases "first_page tif") (auto simp: ASI_body_def first_page_Inr)

lemma ASI_body_True:
  "ASI_body tif = Inr True \<longleftrightarrow>
     (\<exists>p ps v. pages tif = Inr (p # ps) \<and> shape p = [516, 516] \<and> tags p 270 = Some v \<and>
        py_in ''ImageCameraName: timepix'' v = Inr True)"
proof (cases "\<exists>p ps. pages tif = Inr (p # ps)")
  case False
  with ASI_body_no_page [OF False] show ?thesis by auto
next
  case True
  then obtain p ps where ps: "pages tif = Inr (p # ps)" by blast
  show ?thesis
    by (auto simp: ASI_body_Cons [OF ps] ps split: option.splits if_splits)
qed

lemma ASI_body_Inr:
  "(\<exists>b. ASI_body tif = Inr b) \<longleftrightarrow>
     (\<exists>p ps. pages tif = Inr (p # ps) \<and>
        (shape p \<noteq> [516, 516] \<or> (\<exists>v. tags p 270 = Some v \<and> accepts_in v)))"
proof (cases "\<exists>p ps. pages tif = Inr (p # ps)")
  case False
  with ASI_body_no_page [OF False] show ?thesis by auto
next
  case True
  then obtain p ps where ps: "pages tif = Inr (p # ps)" by blast
  have "(\<exists>b. ASI_body tif = Inr b) \<longleftrightarrow>
      shape p \<noteq> [516, 516] \<or> (\<exists>v. tags p 270 = Some v \<and> accepts_in v)"
    by (auto simp: ASI_body_Cons [OF ps] split: option.splits
        dest: py_in_Inr_accepts intro: accepts_py_in)
  with ps show ?thesis by auto
qed

lemma FEI_Tecnai_G2_body_Cons:
  "pages tif = Inr (p # ps) \<Longrightarrow>
   FEI_Tecnai_G2_body tif =
     (if shape p \<noteq> [1024, 1024] then Inr False
      else case tags p 33560 of
             None \<Rightarrow> Inl KeyError
           | Some v \<Rightarrow>
               (case getitem v ''cameraname'' of
                  Inl e \<Rightarrow> Inl e
                | Inr c \<Rightarrow> py_in ''Veleta'' c))"
  by (simp add: FEI_Tecnai_G2_body_def first_page_Cons tag_def found_result
      split: option.splits sum.splits)

lemma FEI_Tecnai_G2_body_no_page:
  "\<not> (\<exists>p ps. pages tif = Inr (p # ps)) \<Longrightarrow> \<exists>e. FEI_Tecnai_G2_body tif = Inl e"
  by (cases "first_page tif") (auto simp: FEI_Tecnai_G2_body_def first_page_Inr)

lemma getitem_Inr:
  "getitem v k = Inr c \<longleftrightarrow> (\<exists>m. v = MapVal m \<and> map_of m k = Some c)"
  by (cases v) (auto split: option.splits)

lemma FEI_Tecnai_G2_body_True:
  "FEI_Tecnai_G2_body tif = Inr True \<longleftrightarrow>
     (\<exists>p ps m c. pages tif = Inr (p # ps) \<and> shape p = [1024, 1024] \<and>
        tags p 33560 = Some (MapVal m) \<and> map_of m ''cameraname'' = Some c \<and>
        py_in ''Veleta'' c = Inr True)"
proof (cases "\<exists>p ps. pages tif = Inr (p # ps)")
  case False
  with FEI_Tecnai_G2_body_no_page [OF False] show ?thesis by auto
next
  case True
  then obtain p ps where ps: "pages tif = Inr (p # ps)" by blast
  show ?thesis
    by (auto simp: FEI_Tecnai_G2_body_Cons [OF ps] ps getitem_Inr
        split: option.splits if_splits sum.splits)
qed

lemma FEI_Tecnai_G2_body_Inr:
  "(\<exists>b. FEI_Tecnai_G2_body tif = Inr b) \<longleftrightarrow>
     (\<exists>p ps. pages tif = Inr (p # ps) \<and>
        (shape p \<noteq> [1024, 1024] \<or>
         (\<exists>m c. tags p 33560 = Some (MapVal m) \<and> map_of m ''cameraname'' = Some c \<and>
            accepts_in c)))"
proof (cases "\<exists>p ps. pages tif = Inr (p # ps)")
  case False
  with FEI_Tecnai_G2_body_no_page [OF False] show ?thesis by auto
next
  case True
  then obtain p ps where ps: "pages tif = Inr (p # ps)" by blast
  have "(\<exists>b. FEI_Tecnai_G2_body tif = Inr b) \<longleftrightarrow>
      shape p \<noteq> [1024, 1024] \<or>
      (\<exists>m c. tags p 33560 = Some (MapVal m) \<and> map_of m ''cameraname'' = Some c \<and>
         accepts_in c)"
    by (auto simp: FEI_Tecnai_G2_body_Cons [OF ps] getitem_Inr
        split: option.splits sum.splits dest: py_in_Inr_accepts intro: accepts_py_in)
  with ps show ?thesis by auto
qed

text \<open>
  Claim C6 says that the ASI predicate returns False on every 516 x 516 page whose tag
  270 does not contain \<^verbatim>\<open>ImageCameraName: timepix\<close>. When the text of the tag does not
  decode, the library leaves its value as bytes, and the test of a string against bytes
  raises TypeError: on such a page the predicate does not return at all.
\<close>

theorem ASI_raises_on_bytes:
  "fst (ASI_understand (a_sys (Inr (a_tiff [a_page [516, 516]
          [(270, BytesVal [CHR 0xFF, CHR 0xFE])]] 1)) []) ''a.tif'' st0) = Inl TypeError"
  by (simp add: ASI_understand_def with_TiffFile_def TiffFile_def ASI_body_def first_page_def
      getitem0_def tag_def a_sys_def a_tiff_def a_page_def)

text \<open>
  Claim C6 as amended. On a file with a first page, the ASI predicate returns False when
  the shape of that page is not exactly 516 x 516, and returns False on a 516 x 516 page
  whose tag 270 is a string without \<^verbatim>\<open>ImageCameraName: timepix\<close>. It returns True
  exactly when the file opens, the first page is 516 x 516 and the value of its tag 270
  contains that text. On a 516 x 516 page it raises instead of returning False when tag
  270 is absent (KeyError) and when its value is bytes, a number or None (TypeError).
\<close>

theorem ASI_understand_checks:
  "(fst (ASI_understand sy image_file st) = Inr True \<longleftrightarrow>
      (\<exists>lib tif p ps v. tifffile sy = Some lib \<and> lib image_file = Inr tif \<and>
         pages tif = Inr (p # ps) \<and> shape p = [516, 516] \<and> tags p 270 = Some v \<and>
         py_in ''ImageCameraName: timepix'' v = Inr True)) \<and>
   (\<forall>lib tif p ps. tifffile sy = Some lib \<and> lib image_file = Inr tif \<and>
        pages tif = Inr (p # ps) \<longrightarrow>
      (shape p \<noteq> [516, 516] \<longrightarrow> fst (ASI_understand sy image_file st) = Inr False) \<and>
      (\<forall>s. shape p = [516, 516] \<and> tags p 270 = Some (StrVal s) \<and>
            \<not> sublist ''ImageCameraName: timepix'' s \<longrightarrow>
         fst (ASI_understand sy image_file st) = Inr False) \<and>
      (\<forall>s. tags p 270 = Some (StrVal s) \<longrightarrow>
         fst (ASI_understand sy image_file st) =
           Inr (shape p = [516, 516] \<and> sublist ''ImageCameraName: timepix'' s)) \<and>
      (shape p = [516, 516] \<and> tags p 270 = None \<longrightarrow>
         fst (ASI_understand sy image_file st) = Inl KeyError) \<and>
      (\<forall>v. shape p = [516, 516] \<and> tags p 270 = Some v \<and> \<not> accepts_in v \<longrightarrow>
         fst (ASI_understand sy image_file st) = Inl TypeError))"
proof (intro conjI allI impI)
  show "fst (ASI_understand sy image_file st) = Inr True \<longleftrightarrow>
      (\<exists>lib tif p ps v. tifffile sy = Some lib \<and> lib image_file = Inr tif \<and>
         pages tif = Inr (p # ps) \<and> shape p = [516, 516] \<and> tags p 270 = Some v \<and>
         py_in ''ImageCameraName: timepix'' v = Inr True)"
    unfolding ASI_understand_def with_TiffFile_True ASI_body_True by blast
next
  fix lib tif p ps
  assume h: "tifffile sy = Some lib \<and> lib image_file = Inr tif \<and> pages tif = Inr (p # ps)"
  then have A: "fst (ASI_understand sy image_file st) = ASI_body tif"
    by (simp add: ASI_understand_def with_TiffFile_opened)
  from h have B: "pages tif = Inr (p # ps)" by simp
  {
    assume "shape p \<noteq> [516, 516]"
    then show "fst (ASI_understand sy image_file st) = Inr False"
      by (simp add: A ASI_body_Cons [OF B])
  }
  {
    fix s
    assume "shape p = [516, 516] \<and> tags p 270 = Some (StrVal s) \<and>
            \<not> sublist ''ImageCameraName: timepix'' s"
    then show "fst (ASI_understand sy image_file st) = Inr False"
      by (simp add: A ASI_body_Cons [OF B])
  }
  {
    fix s
    assume "tags p 270 = Some (StrVal s)"
    then show "fst (ASI_understand sy image_file st) =
           Inr (shape p = [516, 516] \<and> sublist ''ImageCameraName: timepix'' s)"
      by (simp add: A ASI_body_Cons [OF B])
  }
  {
    assume "shape p = [516, 516] \<and> tags p 270 = None"
    then show "fst (ASI_understand sy image_file st) = Inl KeyError"
      by (simp add: A ASI_body_Cons [OF B])
  }
  {
    fix v
    assume "shape p = [516, 516] \<and> tags p 270 = Some v \<and> \<not> accepts_in v"
    then show "fst (ASI_understand sy image_file st) = Inl TypeError"
      by (simp add: A ASI_body_Cons [OF B] py_in_refuses)
  }
qed

theorem ASI_understand_checks_witness:
  "fst (ASI_understand (a_sys (Inr (a_tiff [a_page [512, 512]
          [(270, StrVal ''ImageCameraName: timepix'')]] 1)) []) ''a.tif'' st0) = Inr False \<and>
   fst (ASI_understand (a_sys (Inr (a_tiff [a_page [516, 516]
          [(270, StrVal ''ImageCameraName: medipix'')]] 1)) []) ''a.tif'' st0) = Inr False \<and>
   fst (ASI_understand (a_sys (Inr (a_tiff [a_page [516, 516]
          [(270, StrVal ''ImageCameraName: timepix'')]] 1)) []) ''a.tif'' st0) = Inr True \<and>
   fst (ASI_understand (a_sys (Inr (a_tiff [a_page [516, 516] []] 1)) []) ''a.tif'' st0)
     = Inl KeyError \<and>
   fst (ASI_understand (a_sys (Inr (a_tiff [a_page [516, 516]
          [(270, NumVal 7)]] 1)) []) ''a.tif'' st0) = Inl TypeError"
proof (intro conjI)
  let ?f = "\<lambda>sh ts. a_sys (Inr (a_tiff [a_page sh ts] 1)) []"
  show "fst (ASI_understand (?f [512, 512] [(270, StrVal ''ImageCameraName: timepix'')])
          ''a.tif'' st0) = Inr False"
    using ASI_understand_checks
      [of "?f [512, 512] [(270, StrVal ''ImageCameraName: timepix'')]" "''a.tif''" st0]
    by (simp add: a_sys_def a_tiff_def a_page_def)
  show "fst (ASI_understand (?f [516, 516] [(270, StrVal ''ImageCameraName: medipix'')])
          ''a.tif'' st0) = Inr False"
    using ASI_understand_checks
      [of "?f [516, 516] [(270, StrVal ''ImageCameraName: medipix'')]" "''a.tif''" st0]
    by (simp add: a_sys_def a_tiff_def a_page_def sublist_code)
  show "fst (ASI_understand (?f [516, 516] [(270, StrVal ''ImageCameraName: timepix'')])
          ''a.tif'' st0) = Inr True"
    using ASI_understand_checks
      [of "?f [516, 516] [(270, StrVal ''ImageCameraName: timepix'')]" "''a.tif''" st0]
    by (simp add: a_sys_def a_tiff_def a_page_def)
  show "fst (ASI_understand (?f [516, 516] []) ''a.tif'' st0) = Inl KeyError"
    using ASI_understand_checks [of "?f [516, 516] []" "''a.tif''" st0]
    by (simp add: a_sys_def a_tiff_def a_page_def)
  show "fst (ASI_understand (?f [516, 516] [(270, NumVal 7)]) ''a.tif'' st0) = Inl TypeError"
    using ASI_understand_checks [of "?f [516, 516] [(270, NumVal 7)]" "''a.tif''" st0]
    by (simp add: a_sys_def a_tiff_def a_page_def)
qed

text \<open>
  Claim C4 says that a specialized predicate accepts a file only if the base predicate's
  requirements hold for it too. None of the six calls the base predicate or counts pages
  or series: the Medipix predicate accepts a file of two 514 x 514 pages, which the base
  predicate refuses.
\<close>

theorem Medipix_accepts_two_pages:
  "fst (Medipix_understand (a_sys (Inr (a_tiff [a_page [514, 514] [], a_page [514, 514] []] 1)) [])
         ''a.tif'' st0) = Inr True \<and>
   fst (understand (a_sys (Inr (a_tiff [a_page [514, 514] [], a_page [514, 514] []] 1)) [])
         ''a.tif'' st0) = Inr False"
  by (simp add: Medipix_understand_def understand_def with_TiffFile_def TiffFile_def
      shape_body_def first_page_def getitem0_def understand_body_def
      a_sys_def a_tiff_def a_page_def)

text \<open>
  Claim C4 as amended. Each specialized predicate is the conjunction of its own checks
  and of nothing else: its environment gate where it has one, that the file opens and has
  a first page, the shape of that page, and for ASI and FEI Tecnai G2 the tag. The number
  of pages after the first and the series play no part.
\<close>

theorem specialized_understand_own_checks:
  "(fst (Merlin_understand sy image_file st) = Inr True \<longleftrightarrow>
      environ sy ''QD_MERLIN_TIFF'' \<noteq> None \<and>
      (\<exists>lib tif p ps. tifffile sy = Some lib \<and> lib image_file = Inr tif \<and>
         pages tif = Inr (p # ps) \<and> shape p = [512, 512])) \<and>
   (fst (ASI_understand sy image_file st) = Inr True \<longleftrightarrow>
      (\<exists>lib tif p ps v. tifffile sy = Some lib \<and> lib image_file = Inr tif \<and>
         pages tif = Inr (p # ps) \<and> shape p = [516, 516] \<and> tags p 270 = Some v \<and>
         py_in ''ImageCameraName: timepix'' v = Inr True)) \<and>
   (fst (FEI_Tecnai_G2_understand sy image_file st) = Inr True \<longleftrightarrow>
      (\<exists>lib tif p ps m c. tifffile sy = Some lib \<and> lib image_file = Inr tif \<and>
         pages tif = Inr (p # ps) \<and> shape p = [1024, 1024] \<and>
         tags p 33560 = Some (MapVal m) \<and> map_of m ''cameraname'' = Some c \<and>
         py_in ''Veleta'' c = Inr True)) \<and>
   (fst (Medipix_understand sy image_file st) = Inr True \<longleftrightarrow>
      (\<exists>lib tif p ps. tifffile sy = Some lib \<and> lib image_file = Inr tif \<and>
         pages tif = Inr (p # ps) \<and> shape p = [514, 514])) \<and>
   (fst (UED_understand sy image_file st) = Inr True \<longleftrightarrow>
      (\<exists>lib tif p ps. tifffile sy = Some lib \<and> lib image_file = Inr tif \<and>
         pages tif = Inr (p # ps) \<and> shape p = [1300, 1340])) \<and>
   (fst (UED_BNL_understand sy image_file st) = Inr True \<longleftrightarrow>
      environ sy ''UED_BNL_TIFF'' \<noteq> None \<and>
      (\<exists>lib tif p ps. tifffile sy = Some lib \<and> lib image_file = Inr tif \<and>
         pages tif = Inr (p # ps) \<and> shape p = [512, 512]))"
proof (intro conjI)
  show "fst (Merlin_understand sy image_file st) = Inr True \<longleftrightarrow>
      environ sy ''QD_MERLIN_TIFF'' \<noteq> None \<and>
      (\<exists>lib tif p ps. tifffile sy = Some lib \<and> lib image_file = Inr tif \<and>
         pages tif = Inr (p # ps) \<and> shape p = [512, 512])"
  proof (cases "environ sy ''QD_MERLIN_TIFF''")
    case None
    then show ?thesis by (simp add: Merlin_understand_def)
  next
    case (Some v)
    then have M: "Merlin_understand sy image_file st =
        with_TiffFile sy image_file (shape_body [512, 512]) st"
      by (simp add: Merlin_understand_def)
    show ?thesis
      unfolding M with_TiffFile_True shape_body_True using Some by auto
  qed
  show "fst (ASI_understand sy image_file st) = Inr True \<longleftrightarrow>
      (\<exists>lib tif p ps v. tifffile sy = Some lib \<and> lib image_file = Inr tif \<and>
         pages tif = Inr (p # ps) \<and> shape p = [516, 516] \<and> tags p 270 = Some v \<and>
         py_in ''ImageCameraName: timepix'' v = Inr True)"
    unfolding ASI_understand_def with_TiffFile_True ASI_body_True by blast
  show "fst (FEI_Tecnai_G2_understand sy image_file st) = Inr True \<longleftrightarrow>
      (\<exists>lib tif p ps m c. tifffile sy = Some lib \<and> lib image_file = Inr tif \<and>
         pages tif = Inr (p # ps) \<and> shape p = [1024, 1024] \<and>
         tags p 33560 = Some (MapVal m) \<and> map_of m ''cameraname'' = Some c \<and>
         py_in ''Veleta'' c = Inr True)"
    unfolding FEI_Tecnai_G2_understand_def with_TiffFile_True FEI_Tecnai_G2_body_True by blast
  show "fst (Medipix_understand sy image_file st) = Inr True \<longleftrightarrow>
      (\<exists>lib tif p ps. tifffile sy = Some lib \<and> lib image_file = Inr tif \<and>
         pages tif = Inr (p # ps) \<and> shape p = [514, 514])"
    unfolding Medipix_understand_def with_TiffFile_True shape_body_True by blast
  show "fst (UED_understand sy image_file st) = Inr True \<longleftrightarrow>
      (\<exists>lib tif p ps. tifffile sy = Some lib \<and> lib image_file = Inr tif \<and>
         pages tif = Inr (p # ps) \<and> shape p = [1300, 1340])"
    unfolding UED_understand_def with_TiffFile_True shape_body_True by blast
  show "fst (UED_BNL_understand sy image_file st) = Inr True \<longleftrightarrow>
      environ sy ''UED_BNL_TIFF'' \<noteq> None \<and>
      (\<exists>lib tif p ps. tifffile sy = Some lib \<and> lib image_file = Inr tif \<and>
         pages tif = Inr (p # ps) \<and> shape p = [512, 512])"
  proof (cases "environ sy ''UED_BNL_TIFF''")
    case None
    then show ?thesis by (simp add: UED_BNL_understand_def)
  next
    case (Some v)
    then have U: "UED_BNL_understand sy image_file st =
        with_TiffFile sy image_file (shape_body [512, 512]) st"
      by (simp add: UED_BNL_understand_def)
    show ?thesis
      unfolding U with_TiffFile_True shape_body_True using Some by auto
  qed
qed

text \<open>
  The amended statement at concrete files: a three-page file in two series, with a first
  page of 1300 x 1340, is accepted by the UED predicate; a Veleta camera name in tag
  33560 of a 1024 x 1024 first page is accepted by the FEI Tecnai G2 predicate.
\<close>

theorem specialized_understand_own_checks_witness:
  "fst (UED_understand (a_sys (Inr (a_tiff
          [a_page [1300, 1340] [], a_page [2, 2] [], a_page [3, 3] []] 2)) [])
        ''a.tif'' st0) = Inr True \<and>
   fst (FEI_Tecnai_G2_understand (a_sys (Inr (a_tiff
          [a_page [1024, 1024] [(33560, MapVal [(''cameraname'', StrVal ''Veleta'')])]] 1)) [])
        ''a.tif'' st0) = Inr True"
proof (intro conjI)
  let ?u = "a_sys (Inr (a_tiff [a_page [1300, 1340] [], a_page [2, 2] [], a_page [3, 3] []] 2)) []"
  let ?t = "a_sys (Inr (a_tiff
          [a_page [1024, 1024] [(33560, MapVal [(''cameraname'', StrVal ''Veleta'')])]] 1)) []"
  show "fst (UED_understand ?u ''a.tif'' st0) = Inr True"
    using specialized_understand_own_checks [of ?u "''a.tif''" st0]
    by (simp add: a_sys_def a_tiff_def a_page_def)
  show "fst (FEI_Tecnai_G2_understand ?t ''a.tif'' st0) = Inr True"
    using specialized_understand_own_checks [of ?t "''a.tif''" st0]
    by (simp add: a_sys_def a_tiff_def a_page_def)
qed

text \<open>
  Claim C3 says that every predicate returns a boolean on every file, a missing tag in
  ASI and FEI Tecnai G2 apart. The specializations open the file with no handler around
  it: on a file that is not a TIFF the library's TiffFileError escapes the Medipix
  predicate, and without the library it raises AttributeError.
\<close>

theorem Medipix_lets_exceptions_escape:
  "fst (Medipix_understand (a_sys (Inl TiffFileError) []) ''a.txt'' st0) = Inl TiffFileError \<and>
   fst (Medipix_understand no_tifffile ''a.tif'' st0) = Inl AttributeError"
  by (simp add: Medipix_understand_def with_TiffFile_def TiffFile_def a_sys_def no_tifffile_def)

text \<open>
  Claim C3 as amended: when each predicate returns a boolean, and an exception escapes
  in every other case.
  \<^item> The base predicate returns a boolean exactly when the library is missing, or opening
    raises TiffFileError, or the file opens and reading its pages and series raises
    nothing but AssertionError or KeyError.
  \<^item> The Merlin and UED-BNL predicates return a boolean exactly when their environment
    variable is unset or the file opens and has a first page; the Medipix and UED
    predicates exactly when the file opens and has a first page.
  \<^item> The ASI predicate returns a boolean exactly when the file opens and has a first page
    that is not 516 x 516 or has a tag 270 whose value is a string, a tuple or a mapping.
  \<^item> The FEI Tecnai G2 predicate returns a boolean exactly when the file opens and has a
    first page that is not 1024 x 1024 or has a tag 33560 that is a mapping with a
    \<^verbatim>\<open>cameraname\<close> entry whose value is a string, a tuple or a mapping.
  \<^item> On a first page of the expected shape without the expected tag, KeyError escapes
    the ASI and the FEI Tecnai G2 predicate.
\<close>

theorem understand_returns_boolean:
  "((\<exists>b. fst (understand sy image_file st) = Inr b) \<longleftrightarrow>
      (case tifffile sy of
         None \<Rightarrow> True
       | Some lib \<Rightarrow>
           (case lib image_file of
              Inl e \<Rightarrow> e = TiffFileError
            | Inr tif \<Rightarrow>
                (case pages tif of
                   Inl e \<Rightarrow> e = AssertionError \<or> e = KeyError
                 | Inr ps \<Rightarrow>
                     length ps \<noteq> 1 \<or>
                     (case series tif of
                        Inl e \<Rightarrow> e = AssertionError \<or> e = KeyError
                      | Inr ss \<Rightarrow> True))))) \<and>
   ((\<exists>b. fst (Merlin_understand sy image_file st) = Inr b) \<longleftrightarrow>
      environ sy ''QD_MERLIN_TIFF'' = None \<or>
      (\<exists>lib tif p ps. tifffile sy = Some lib \<and> lib image_file = Inr tif \<and>
         pages tif = Inr (p # ps))) \<and>
   ((\<exists>b. fst (UED_BNL_understand sy image_file st) = Inr b) \<longleftrightarrow>
      environ sy ''UED_BNL_TIFF'' = None \<or>
      (\<exists>lib tif p ps. tifffile sy = Some lib \<and> lib image_file = Inr tif \<and>
         pages tif = Inr (p # ps))) \<and>
   ((\<exists>b. fst (Medipix_understand sy image_file st) = Inr b) \<longleftrightarrow>
      (\<exists>lib tif p ps. tifffile sy = Some lib \<and> lib image_file = Inr tif \<and>
         pages tif = Inr (p # ps))) \<and>
   ((\<exists>b. fst (UED_understand sy image_file st) = Inr b) \<longleftrightarrow>
      (\<exists>lib tif p ps. tifffile sy = Some lib \<and> lib image_file = Inr tif \<and>
         pages tif = Inr (p # ps))) \<and>
   ((\<exists>b. fst (ASI_understand sy image_file st) = Inr b) \<longleftrightarrow>
      (\<exists>lib tif p ps. tifffile sy = Some lib \<and> lib image_file = Inr tif \<and>
         pages tif = Inr (p # ps) \<and>
         (shape p \<noteq> [516, 516] \<or> (\<exists>v. tags p 270 = Some v \<and> accepts_in v)))) \<and>
   ((\<exists>b. fst (FEI_Tecnai_G2_understand sy image_file st) = Inr b) \<longleftrightarrow>
      (\<exists>lib tif p ps. tifffile sy = Some lib \<and> lib image_file = Inr tif \<and>
         pages tif = Inr (p # ps) \<and>
         (shape p \<noteq> [1024, 1024] \<or>
          (\<exists>m c. tags p 33560 = Some (MapVal m) \<and> map_of m ''cameraname'' = Some c \<and>
             accepts_in c)))) \<and>
   (\<forall>lib tif p ps. tifffile sy = Some lib \<and> lib image_file = Inr tif \<and>
        pages tif = Inr (p # ps) \<longrightarrow>
      (shape p = [516, 516] \<and> tags p 270 = None \<longrightarrow>
         fst (ASI_understand sy image_file st) = Inl KeyError) \<and>
      (shape p = [1024, 1024] \<and> tags p 33560 = None \<longrightarrow>
         fst (FEI_Tecnai_G2_understand sy image_file st) = Inl KeyError))"
proof (intro conjI allI impI)
  show "(\<exists>b. fst (understand sy image_file st) = Inr b) \<longleftrightarrow>
      (case tifffile sy of
         None \<Rightarrow> True
       | Some lib \<Rightarrow>
           (case lib image_file of
              Inl e \<Rightarrow> e = TiffFileError
            | Inr tif \<Rightarrow>
                (case pages tif of
                   Inl e \<Rightarrow> e = AssertionError \<or> e = KeyError
                 | Inr ps \<Rightarrow>
                     length ps \<noteq> 1 \<or>
                     (case series tif of
                        Inl e \<Rightarrow> e = AssertionError \<or> e = KeyError
                      | Inr ss \<Rightarrow> True))))"
  proof (cases "tifffile sy")
    case None
    then show ?thesis by (auto simp: understand_def)
  next
    case (Some lib)
    show ?thesis
    proof (cases "lib image_file")
      case (Inl e)
      with Some show ?thesis by (auto simp: understand_def TiffFile_def)
    next
      case (Inr tif)
      have "(\<exists>b. fst (understand sy image_file st) = Inr b) \<longleftrightarrow>
          (case understand_body tif of
             Inl e \<Rightarrow> e = AssertionError \<or> e = KeyError
           | Inr p \<Rightarrow> True)"
        using Some Inr by (auto simp: understand_def TiffFile_def Let_def split: sum.splits)
      also have "\<dots> \<longleftrightarrow>
          (case pages tif of
             Inl e \<Rightarrow> e = AssertionError \<or> e = KeyError
           | Inr ps \<Rightarrow>
               length ps \<noteq> 1 \<or>
               (case series tif of
                  Inl e \<Rightarrow> e = AssertionError \<or> e = KeyError
                | Inr ss \<Rightarrow> True))"
        by (auto simp: understand_body_def getitem0_def split: sum.splits list.splits)
      finally show ?thesis using Some Inr by simp
    qed
  qed
next
  show "(\<exists>b. fst (Merlin_understand sy image_file st) = Inr b) \<longleftrightarrow>
      environ sy ''QD_MERLIN_TIFF'' = None \<or>
      (\<exists>lib tif p ps. tifffile sy = Some lib \<and> lib image_file = Inr tif \<and>
         pages tif = Inr (p # ps))"
  proof (cases "environ sy ''QD_MERLIN_TIFF''")
    case None
    then show ?thesis by (auto simp: Merlin_understand_def)
  next
    case (Some v)
    then have M: "Merlin_understand sy image_file st =
        with_TiffFile sy image_file (shape_body [512, 512]) st"
      by (simp add: Merlin_understand_def)
    show ?thesis
      unfolding M with_shape_body_Inr using Some by simp
  qed
next
  show "(\<exists>b. fst (UED_BNL_understand sy image_file st) = Inr b) \<longleftrightarrow>
      environ sy ''UED_BNL_TIFF'' = None \<or>
      (\<exists>lib tif p ps. tifffile sy = Some lib \<and> lib image_file = Inr tif \<and>
         pages tif = Inr (p # ps))"
  proof (cases "environ sy ''UED_BNL_TIFF''")
    case None
    then show ?thesis by (auto simp: UED_BNL_understand_def)
  next
    case (Some v)
    then have U: "UED_BNL_understand sy image_file st =
        with_TiffFile sy image_file (shape_body [512, 512]) st"
      by (simp add: UED_BNL_understand_def)
    show ?thesis
      unfolding U with_shape_body_Inr using Some by simp
  qed
next
  show "(\<exists>b. fst (Medipix_understand sy image_file st) = Inr b) \<longleftrightarrow>
      (\<exists>lib tif p ps. tifffile sy = Some lib \<and> lib image_file = Inr tif \<and>
         pages tif = Inr (p # ps))"
    unfolding Medipix_understand_def by (rule with_shape_body_Inr)
next
  show "(\<exists>b. fst (UED_understand sy image_file st) = Inr b) \<longleftrightarrow>
      (\<exists>lib tif p ps. tifffile sy = Some lib \<and> lib image_file = Inr tif \<and>
         pages tif = Inr (p # ps))"
    unfolding UED_understand_def by (rule with_shape_body_Inr)
next
  show "(\<exists>b. fst (ASI_understand sy image_file st) = Inr b) \<longleftrightarrow>
      (\<exists>lib tif p ps. tifffile sy = Some lib \<and> lib image_file = Inr tif \<and>
         pages tif = Inr (p # ps) \<and>
         (shape p \<noteq> [516, 516] \<or> (\<exists>v. tags p 270 = Some v \<and> accepts_in v)))"
    unfolding ASI_understand_def with_TiffFile_Inr using ASI_body_Inr by blast
next
  show "(\<exists>b. fst (FEI_Tecnai_G2_understand sy image_file st) = Inr b) \<longleftrightarrow>
      (\<exists>lib tif p ps. tifffile sy = Some lib \<and> lib image_file = Inr tif \<and>
         pages tif = Inr (p # ps) \<and>
         (shape p \<noteq> [1024, 1024] \<or>
          (\<exists>m c. tags p 33560 = Some (MapVal m) \<and> map_of m ''cameraname'' = Some c \<and>
             accepts_in c)))"
    unfolding FEI_Tecnai_G2_understand_def with_TiffFile_Inr
    using FEI_Tecnai_G2_body_Inr by blast
next
  fix lib tif p ps
  assume h: "tifffile sy = Some lib \<and> lib image_file = Inr tif \<and> pages tif = Inr (p # ps)"
  then have W: "\<And>body. with_TiffFile sy image_file body st = (body tif, st)"
    by (simp add: with_TiffFile_opened)
  from h have B: "pages tif = Inr (p # ps)" by simp
  {
    assume "shape p = [516, 516] \<and> tags p 270 = None"
    then show "fst (ASI_understand sy image_file st) = Inl KeyError"
      by (simp add: ASI_understand_def W ASI_body_Cons [OF B])
  }
  {
    assume "shape p = [1024, 1024] \<and> tags p 33560 = None"
    then show "fst (FEI_Tecnai_G2_understand sy image_file st) = Inl KeyError"
      by (simp add: FEI_Tecnai_G2_understand_def W FEI_Tecnai_G2_body_Cons [OF B])
  }
qed

text \<open>
  At concrete files. Without the library the base predicate answers. On a file that
  does not open, the Merlin predicate answers when its variable is unset, and the Medipix
  predicate does not answer. A 1024 x 1024 page whose tag 33560 is text, or a mapping
  without \<^verbatim>\<open>cameraname\<close>, gets no answer from the FEI Tecnai G2 predicate. A 516 x 516
  page with no tag makes the ASI predicate raise KeyError.
\<close>

theorem understand_returns_boolean_witness:
  "(\<exists>b. fst (understand no_tifffile ''a.tif'' st0) = Inr b) \<and>
   (\<exists>b. fst (Merlin_understand (a_sys (Inl TiffFileError) []) ''a.txt'' st0) = Inr b) \<and>
   \<not> (\<exists>b. fst (Medipix_understand (a_sys (Inl TiffFileError) []) ''a.txt'' st0) = Inr b) \<and>
   \<not> (\<exists>b. fst (FEI_Tecnai_G2_understand (a_sys (Inr (a_tiff [a_page [1024, 1024]
            [(33560, StrVal ''Veleta'')]] 1)) []) ''a.tif'' st0) = Inr b) \<and>
   \<not> (\<exists>b. fst (FEI_Tecnai_G2_understand (a_sys (Inr (a_tiff [a_page [1024, 1024]
            [(33560, MapVal [(''magnification'', NumVal 2)])]] 1)) []) ''a.tif'' st0) = Inr b) \<and>
   (\<exists>b. fst (FEI_Tecnai_G2_understand (a_sys (Inr (a_tiff [a_page [1024, 1024]
            [(33560, MapVal [(''cameraname'', StrVal ''Veleta'')])]] 1)) []) ''a.tif'' st0)
          = Inr b) \<and>
   fst (ASI_understand (a_sys (Inr (a_tiff [a_page [516, 516] []] 1)) []) ''a.tif'' st0)
     = Inl KeyError"
proof (intro conjI)
  let ?t = "\<lambda>ts. a_sys (Inr (a_tiff [a_page [1024, 1024] ts] 1)) []"
  show "\<exists>b. fst (understand no_tifffile ''a.tif'' st0) = Inr b"
    using understand_returns_boolean [of no_tifffile "''a.tif''" st0]
    by (simp add: no_tifffile_def)
  show "\<exists>b. fst (Merlin_understand (a_sys (Inl TiffFileError) []) ''a.txt'' st0) = Inr b"
    using understand_returns_boolean [of "a_sys (Inl TiffFileError) []" "''a.txt''" st0]
    by (simp add: a_sys_def)
  show "\<not> (\<exists>b. fst (Medipix_understand (a_sys (Inl TiffFileError) []) ''a.txt'' st0) = Inr b)"
    using understand_returns_boolean [of "a_sys (Inl TiffFileError) []" "''a.txt''" st0]
    by (simp add: a_sys_def)
  show "\<not> (\<exists>b. fst (FEI_Tecnai_G2_understand (?t [(33560, StrVal ''Veleta'')])
           ''a.tif'' st0) = Inr b)"
    using understand_returns_boolean [of "?t [(33560, StrVal ''Veleta'')]" "''a.tif''" st0]
    by (simp add: a_sys_def a_tiff_def a_page_def)
  show "\<not> (\<exists>b. fst (FEI_Tecnai_G2_understand
           (?t [(33560, MapVal [(''magnification'', NumVal 2)])]) ''a.tif'' st0) = Inr b)"
    using understand_returns_boolean
      [of "?t [(33560, MapVal [(''magnification'', NumVal 2)])]" "''a.tif''" st0]
    by (simp add: a_sys_def a_tiff_def a_page_def)
  show "\<exists>b. fst (FEI_Tecnai_G2_understand
           (?t [(33560, MapVal [(''cameraname'', StrVal ''Veleta'')])]) ''a.tif'' st0) = Inr b"
    using understand_returns_boolean
      [of "?t [(33560, MapVal [(''cameraname'', StrVal ''Veleta'')])]" "''a.tif''" st0]
    by (simp add: a_sys_def a_tiff_def a_page_def)
  show "fst (ASI_understand (a_sys (Inr (a_tiff [a_page [516, 516] []] 1)) []) ''a.tif'' st0)
     = Inl KeyError"
    using understand_returns_boolean
      [of "a_sys (Inr (a_tiff [a_page [516, 516] []] 1)) []" "''a.tif''" st0]
    by (simp add: a_sys_def a_tiff_def a_page_def)
qed

section \<open>Scan inference\<close>

subsection \<open>The pieces of the file name\<close>

lemma str_split_not_Nil: "str_split sep s \<noteq> []"
  by (induction s) (auto split: list.splits)

lemma str_split_absent: "sep \<notin> set s \<Longrightarrow> str_split sep s = [s]"
  by (induction s) auto

lemma str_split_present: "sep \<in> set s \<Longrightarrow> tl (str_split sep s) \<noteq> []"
proof (induction s)
  case Nil
  then show ?case by simp
next
  case (Cons c cs)
  show ?case
  proof (cases "c = sep")
    case True
    then show ?thesis by (simp add: str_split_not_Nil)
  next
    case False
    with Cons.prems have "sep \<in> set cs" by simp
    then have "tl (str_split sep cs) \<noteq> []" by (rule Cons.IH)
    with False show ?thesis by (auto split: list.splits)
  qed
qed

lemma hd_str_split: "hd (str_split sep s) = takeWhile (\<lambda>x. x \<noteq> sep) s"
  by (induction s) (auto simp: str_split_not_Nil split: list.splits)

lemma takeWhile_snoc_stop: "\<not> P c \<Longrightarrow> takeWhile P (ys @ [c]) = takeWhile P ys"
  by (induction ys) auto

lemma last_str_split: "last (str_split sep s) = rev (takeWhile (\<lambda>x. x \<noteq> sep) (rev s))"
proof (induction s)
  case Nil
  then show ?case by simp
next
  case (Cons c cs)
  show ?case
  proof (cases "c = sep")
    case True
    then show ?thesis
      using Cons.IH by (simp add: str_split_not_Nil takeWhile_snoc_stop)
  next
    case False
    show ?thesis
    proof (cases "sep \<in> set cs")
      case True
      then have t: "tl (str_split sep cs) \<noteq> []" by (rule str_split_present)
      then obtain w ws where ws: "str_split sep cs = w # ws" "ws \<noteq> []"
        by (cases "str_split sep cs") auto
      have "takeWhile (\<lambda>x. x \<noteq> sep) (rev cs @ [c]) = takeWhile (\<lambda>x. x \<noteq> sep) (rev cs)"
        using True by (intro takeWhile_append1 [of sep]) auto
      with False ws Cons.IH show ?thesis by simp
    next
      case False
      have tw: "takeWhile (\<lambda>x. x \<noteq> sep) (rev cs @ [c]) = rev cs @ [c]"
        by (rule takeWhile_eq_all_conv [THEN iffD2]) (use False \<open>c \<noteq> sep\<close> in auto)
      have "str_split sep (c # cs) = [c # cs]"
        using False \<open>c \<noteq> sep\<close> by (simp add: str_split_absent)
      then show ?thesis
        unfolding rev.simps tw by simp
    qed
  qed
qed

lemma snd_os_path_split:
  "snd (os_path_split p) = rev (takeWhile (\<lambda>c. c \<noteq> CHR ''/'') (rev p))"
proof -
  let ?t = "takeWhile (\<lambda>c. c \<noteq> CHR ''/'') (rev p)"
  have "rev p = ?t @ dropWhile (\<lambda>c. c \<noteq> CHR ''/'') (rev p)" by simp
  then have "p = rev (dropWhile (\<lambda>c. c \<noteq> CHR ''/'') (rev p)) @ rev ?t"
    by (metis rev_append rev_rev_ident)
  moreover have "length (rev (dropWhile (\<lambda>c. c \<noteq> CHR ''/'') (rev p))) = length p - length ?t"
    by (simp add: length_dropWhile_le) (metis length_rev takeWhile_dropWhile_id length_append add_diff_cancel_left')
  ultimately have "drop (length p - length ?t) p = rev ?t"
    by (metis append_eq_conv_conj)
  then show ?thesis by (simp add: os_path_split_def Let_def)
qed

text \<open>
  The string that is matched: the file name after its last slash, then after its last
  underscore, then up to its first dot.
\<close>

lemma scan_substring_eq:
  "scan_substring image_file =
     takeWhile (\<lambda>c. c \<noteq> CHR ''.'')
       (rev (takeWhile (\<lambda>c. c \<noteq> CHR ''_'')
          (takeWhile (\<lambda>c. c \<noteq> CHR ''/'') (rev image_file))))"
  by (simp add: scan_substring_def Let_def hd_str_split last_str_split snd_os_path_split)

text \<open>The directory plays no part.\<close>

lemma scan_substring_basename:
  "CHR ''/'' \<notin> set fname \<Longrightarrow>
   scan_substring (dir @ CHR ''/'' # fname) = scan_substring fname"
proof -
  assume a: "CHR ''/'' \<notin> set fname"
  have "takeWhile (\<lambda>c. c \<noteq> CHR ''/'') (rev fname @ CHR ''/'' # rev dir) =
      rev fname @ takeWhile (\<lambda>c. c \<noteq> CHR ''/'') (CHR ''/'' # rev dir)"
    by (rule takeWhile_append2) (use a in auto)
  then have f1: "takeWhile (\<lambda>c. c \<noteq> CHR ''/'') (rev fname @ CHR ''/'' # rev dir) = rev fname"
    by simp
  have f2: "takeWhile (\<lambda>c. c \<noteq> CHR ''/'') (rev fname) = rev fname"
    by (rule takeWhile_eq_all_conv [THEN iffD2]) (use a in auto)
  have r: "rev (dir @ CHR ''/'' # fname) = rev fname @ CHR ''/'' # rev dir"
    by simp
  show ?thesis
    unfolding scan_substring_eq r f1 f2 by (rule refl)
qed

subsection \<open>The match\<close>

lemma trailing_digits_all: "\<forall>x\<in>set s. is_digit x \<Longrightarrow> trailing_digits s = s"
proof -
  assume "\<forall>x\<in>set s. is_digit x"
  then have tw: "takeWhile is_digit (rev s) = rev s"
    by (intro takeWhile_eq_all_conv [THEN iffD2]) simp
  show ?thesis
    unfolding trailing_digits_def tw by simp
qed

lemma trailing_digits_Cons:
  assumes "\<not> (\<forall>x\<in>set (c # cs). is_digit x)"
  shows "trailing_digits (c # cs) = trailing_digits cs"
proof (cases "\<forall>x\<in>set cs. is_digit x")
  case True
  with assms have "\<not> is_digit c" by simp
  then show ?thesis by (simp add: trailing_digits_def takeWhile_snoc_stop)
next
  case False
  then obtain x where "x \<in> set (rev cs)" "\<not> is_digit x" by auto
  then have "takeWhile is_digit (rev cs @ [c]) = takeWhile is_digit (rev cs)"
    by (rule takeWhile_append1)
  then show ?thesis by (simp add: trailing_digits_def)
qed

lemma trailing_digits_Nil_iff:
  "trailing_digits s = [] \<longleftrightarrow> s = [] \<or> \<not> is_digit (last s)"
  by (cases s rule: rev_cases) (auto simp: trailing_digits_def)

lemma digits_to_end_no_line_feed:
  assumes "CHR 0x0A \<notin> set s"
  shows "digits_to_end s = (if s \<noteq> [] \<and> (\<forall>x\<in>set s. is_digit x) then Some s else None)"
proof -
  have lf: "dropWhile is_digit s \<noteq> [CHR 0x0A]"
    using assms set_dropWhileD [of "CHR 0x0A" is_digit s] by auto
  show ?thesis
  proof (cases "\<forall>x\<in>set s. is_digit x")
    case True
    then have tw: "takeWhile is_digit s = s" and dw: "dropWhile is_digit s = []"
      by (auto intro: takeWhile_eq_all_conv [THEN iffD2] dropWhile_eq_Nil_conv [THEN iffD2])
    show ?thesis
      unfolding digits_to_end_def Let_def tw dw using True by simp
  next
    case False
    then have "dropWhile is_digit s \<noteq> []" by simp
    with lf False show ?thesis by (auto simp: digits_to_end_def Let_def)
  qed
qed

lemma re_match_no_line_feed:
  "CHR 0x0A \<notin> set s \<Longrightarrow>
   re_match s = (if trailing_digits s = [] then None else Some (trailing_digits s))"
proof (induction s)
  case Nil
  then show ?case by (simp add: trailing_digits_def)
next
  case (Cons c cs)
  then have lf: "CHR 0x0A \<notin> set (c # cs)" and c: "c \<noteq> CHR 0x0A"
    and IH: "re_match cs = (if trailing_digits cs = [] then None else Some (trailing_digits cs))"
    by auto
  show ?case
  proof (cases "\<forall>x\<in>set (c # cs). is_digit x")
    case True
    then have "digits_to_end (c # cs) = Some (c # cs)"
      using digits_to_end_no_line_feed [OF lf] by simp
    moreover have "trailing_digits (c # cs) = c # cs"
      using True by (rule trailing_digits_all)
    ultimately show ?thesis by simp
  next
    case False
    then have "digits_to_end (c # cs) = None"
      using digits_to_end_no_line_feed [OF lf] by simp
    moreover have "trailing_digits (c # cs) = trailing_digits cs"
      using False by (rule trailing_digits_Cons)
    ultimately show ?thesis using c IH by simp
  qed
qed

text \<open>
  On every file name whose matched string has no line feed, the index is the value of the
  digits that end that string, and 1 when no digit ends it.
\<close>

lemma scan_index_trailing_digits:
  "CHR 0x0A \<notin> set (scan_substring image_file) \<Longrightarrow>
   scan_index image_file =
     (if trailing_digits (scan_substring image_file) = [] then 1
      else py_int (trailing_digits (scan_substring image_file)))"
  by (simp add: scan_index_def re_match_no_line_feed)

text \<open>
  An integer below \<open>2 ^ 53\<close> in absolute value is a float as it is, and the scan of an
  index in that range has the oscillation \<open>0.5 * (index - 1)\<close>.
\<close>

lemma float_of_int_small: "\<bar>n\<bar> < 2 ^ 53 \<Longrightarrow> float_of_int n = Inr (real_of_int n)"
proof -
  assume a: "\<bar>n\<bar> < 2 ^ 53"
  then have "nat \<bar>n\<bar> < 2 ^ 53"
    by (simp add: nat_less_iff)
  then have e: "shift53 (nat \<bar>n\<bar>) = 0"
    by (subst shift53.simps) simp
  have "real (nat \<bar>n\<bar>) < 2 ^ 1024"
  proof -
    have "real (nat \<bar>n\<bar>) < 2 ^ 53"
      using \<open>nat \<bar>n\<bar> < 2 ^ 53\<close> by (metis of_nat_less_iff of_nat_numeral of_nat_power)
    also have "(2::real) ^ 53 \<le> 2 ^ 1024" by (rule power_increasing) simp_all
    finally show ?thesis .
  qed
  then have big: "\<not> 2 ^ 1024 \<le> nat \<bar>n\<bar>"
    by (metis not_less of_nat_le_iff of_nat_numeral of_nat_power)
  have v: "(if n < 0 then - real (nat \<bar>n\<bar>) else real (nat \<bar>n\<bar>)) = real_of_int n"
    by simp
  show ?thesis
    unfolding float_of_int_def Let_def e using big v by simp
qed

text \<open>
  From \<open>2 ^ 53\<close> on the conversion rounds: \<open>2 ^ 53 + 1\<close> lies halfway between two
  floats and goes to the even one, \<open>2 ^ 53 + 3\<close> goes up. At \<open>2 ^ 1024\<close> it raises
  OverflowError.
\<close>

lemma shift53_near: "shift53 (2 ^ 53 + 1) = 1 \<and> shift53 (2 ^ 53 + 2) = 1 \<and> shift53 (2 ^ 53 + 3) = 1"
  by (subst shift53.simps, simp)+

lemma float_of_int_rounds:
  "float_of_int (2 ^ 53 + 1) = Inr (2 ^ 53) \<and>
   float_of_int (2 ^ 53 + 2) = Inr (2 ^ 53 + 2) \<and>
   float_of_int (2 ^ 53 + 3) = Inr (2 ^ 53 + 4)"
proof (intro conjI)
  have e1: "shift53 (nat \<bar>2 ^ 53 + 1\<bar>) = 1" using shift53_near by simp
  show "float_of_int (2 ^ 53 + 1) = Inr (2 ^ 53)"
    unfolding float_of_int_def Let_def e1 by simp
  have e2: "shift53 (nat \<bar>2 ^ 53 + 2\<bar>) = 1" using shift53_near by simp
  show "float_of_int (2 ^ 53 + 2) = Inr (2 ^ 53 + 2)"
    unfolding float_of_int_def Let_def e2 by simp
  have e3: "shift53 (nat \<bar>2 ^ 53 + 3\<bar>) = 1" using shift53_near by simp
  show "float_of_int (2 ^ 53 + 3) = Inr (2 ^ 53 + 4)"
    unfolding float_of_int_def Let_def e3 by simp
qed

lemma shift53_double: "2 ^ 52 \<le> m \<Longrightarrow> shift53 (2 * m) = Suc (shift53 m)"
  by (subst shift53.simps) simp

lemma shift53_power: "shift53 (2 ^ 53 * 2 ^ k) = Suc k"
proof (induction k)
  case 0
  show ?case by (subst shift53.simps, simp)+
next
  case (Suc k)
  have "(2::nat) ^ 52 \<le> 2 ^ (53 + k)" by (rule power_increasing) simp_all
  then have "(2::nat) ^ 52 \<le> 2 ^ 53 * 2 ^ k" by (simp only: power_add)
  then have d: "shift53 (2 * (2 ^ 53 * 2 ^ k)) = Suc (shift53 (2 ^ 53 * 2 ^ k))"
    by (rule shift53_double)
  have eq: "(2::nat) ^ 53 * 2 ^ Suc k = 2 * (2 ^ 53 * 2 ^ k)"
    by (simp only: power_Suc mult.left_commute)
  show ?case using d Suc.IH by (simp only: eq)
qed

lemma float_of_int_overflow: "float_of_int (2 ^ 1024) = Inl OverflowError"
proof -
  have "shift53 (2 ^ 53 * 2 ^ 971) = Suc 971" by (rule shift53_power)
  then have e: "shift53 (2 ^ 1024) = 972" by (simp flip: power_add)
  have n: "nat \<bar>2 ^ 1024\<bar> = 2 ^ 1024" by simp
  have d: "(2::nat) ^ 1024 div 2 ^ 972 = 2 ^ 52"
    using power_diff [of "2::nat" 972 1024] by simp
  have m: "(2::nat) ^ 1024 mod 2 ^ 972 = 0"
    by (simp add: le_imp_power_dvd)
  have p: "(2::nat) ^ 52 * 2 ^ 972 = 2 ^ 1024"
    by (simp flip: power_add)
  show ?thesis unfolding float_of_int_def Let_def n e d m p by simp
qed

lemma scan_of_index:
  "\<bar>scan_index image_file - 1\<bar> < 2 ^ 53 \<Longrightarrow>
   FormatTIFFgeneric_scan image_file =
     Inr \<lparr>image_range = (scan_index image_file, scan_index image_file),
          exposure_times = 0,
          oscillation = (0.5 * real_of_int (scan_index image_file - 1), 0.5),
          epochs = [0],
          deg = True\<rparr>"
  by (simp add: FormatTIFFgeneric_scan_def make_scan_def Let_def float_of_int_small)

lemmas scan_eval =
  scan_index_def scan_substring_def os_path_split_def digits_to_end_def is_digit_def
  py_int_def digit_val_def trailing_digits_def

text \<open>The two file names of the specification.\<close>

lemma scan_examples:
  "scan_index ''foo_023.tif'' = 23 \<and>
   FormatTIFFgeneric_scan ''foo_023.tif'' =
     Inr \<lparr>image_range = (23, 23), exposure_times = 0, oscillation = (11, 0.5),
          epochs = [0], deg = True\<rparr> \<and>
   scan_index ''foo_bar.tif'' = 1 \<and>
   FormatTIFFgeneric_scan ''foo_bar.tif'' =
     Inr \<lparr>image_range = (1, 1), exposure_times = 0, oscillation = (0, 0.5),
          epochs = [0], deg = True\<rparr>"
proof -
  have i: "scan_index ''foo_023.tif'' = 23" "scan_index ''foo_bar.tif'' = 1"
    by (simp_all add: scan_eval)
  show ?thesis
    using scan_of_index [of "''foo_023.tif''"] scan_of_index [of "''foo_bar.tif''"]
    by (simp add: i)
qed

subsection \<open>File names with a line feed\<close>

text \<open>
  Claim C7 reads the index as the digits that end the string after the last underscore
  (cut at the dot), which is also what the comment in the source says. The pattern does
  that only as long as no line feed is in the way: in \<^verbatim>\<open>foo_a\n12.tif\<close> the string is
  \<^verbatim>\<open>a\n12\<close>, it ends with the digits 12, but the dot of the pattern cannot pass the line
  feed, nothing matches, and the index is the default 1. (In the other direction, the
  \<^verbatim>\<open>$\<close> of the pattern accepts a line feed after the digits: \<^verbatim>\<open>foo_12\n.tif\<close> has index
  12 although no digit ends its string.) On names without a line feed the index is as
  the claim says (\<open>scan_index_trailing_digits\<close>), and for an index below \<open>2 ^ 53\<close> so
  is the scan (\<open>scan_of_index\<close>, \<open>scan_examples\<close>); beyond that the conversion of
  the frame to a float rounds, or overflows.
\<close>

theorem scan_index_line_feed:
  "scan_substring (''foo_a'' @ [CHR 0x0A] @ ''12.tif'') = ''a'' @ [CHR 0x0A] @ ''12'' \<and>
   trailing_digits (scan_substring (''foo_a'' @ [CHR 0x0A] @ ''12.tif'')) = ''12'' \<and>
   py_int ''12'' = 12 \<and>
   scan_index (''foo_a'' @ [CHR 0x0A] @ ''12.tif'') = 1 \<and>
   trailing_digits (scan_substring (''foo_12'' @ [CHR 0x0A] @ ''.tif'')) = [] \<and>
   scan_index (''foo_12'' @ [CHR 0x0A] @ ''.tif'') = 12"
  by (simp add: scan_eval)

subsection \<open>When the default applies\<close>

text \<open>
  Claim C10 says that the default index 1 applies only when the string after the last
  underscore has no digit at all. The pattern asks for digits at the end of that string:
  \<^verbatim>\<open>foo_12ab.tif\<close> has the digits 12 in it, nothing matches, and the index is the default.
\<close>

theorem scan_default_with_digits:
  "scan_substring ''foo_12ab.tif'' = ''12ab'' \<and>
   is_digit CHR ''1'' \<and>
   re_match (scan_substring ''foo_12ab.tif'') = None \<and>
   scan_index ''foo_12ab.tif'' = 1"
  by (simp add: scan_eval)

text \<open>
  Claim C10 as amended. For a file name whose string after the last underscore (cut at
  its first dot) has no line feed, the default applies exactly when no digit ends that
  string; when digits end it, the index is their value, whatever it is. So
  \<^verbatim>\<open>foo_0.tif\<close> has index 0, not 1: frame -1, a scan over [0, 0], and an oscillation that
  starts at -0.5 degrees.
\<close>

theorem scan_default_iff_no_trailing_digits:
  "(CHR 0x0A \<notin> set (scan_substring image_file) \<longrightarrow>
      (re_match (scan_substring image_file) = None \<longleftrightarrow>
         scan_substring image_file = [] \<or> \<not> is_digit (last (scan_substring image_file))) \<and>
      (trailing_digits (scan_substring image_file) \<noteq> [] \<longrightarrow>
         scan_index image_file = py_int (trailing_digits (scan_substring image_file)))) \<and>
   scan_index ''foo_0.tif'' = 0 \<and>
   FormatTIFFgeneric_scan ''foo_0.tif'' =
     Inr \<lparr>image_range = (0, 0), exposure_times = 0, oscillation = (- 0.5, 0.5),
          epochs = [0], deg = True\<rparr>"
proof (intro conjI impI)
  assume lf: "CHR 0x0A \<notin> set (scan_substring image_file)"
  show "re_match (scan_substring image_file) = None \<longleftrightarrow>
         scan_substring image_file = [] \<or> \<not> is_digit (last (scan_substring image_file))"
    using re_match_no_line_feed [OF lf] trailing_digits_Nil_iff [of "scan_substring image_file"]
    by (simp split: if_splits)
  assume "trailing_digits (scan_substring image_file) \<noteq> []"
  then show "scan_index image_file = py_int (trailing_digits (scan_substring image_file))"
    using scan_index_trailing_digits [OF lf] by simp
next
  show i: "scan_index ''foo_0.tif'' = 0"
    by (simp add: scan_eval)
  show "FormatTIFFgeneric_scan ''foo_0.tif'' =
     Inr \<lparr>image_range = (0, 0), exposure_times = 0, oscillation = (- 0.5, 0.5),
          epochs = [0], deg = True\<rparr>"
    using scan_of_index [of "''foo_0.tif''"] by (simp add: i)
qed

theorem scan_default_iff_no_trailing_digits_witness:
  "re_match (scan_substring ''foo_bar.tif'') = None \<and>
   re_match (scan_substring ''foo_0.tif'') \<noteq> None \<and>
   scan_index ''foo_0.tif'' = 0 \<and>
   scan_index ''foo_7.tif'' = py_int ''7'' \<and>
   FormatTIFFgeneric_scan ''foo_0.tif'' =
     Inr \<lparr>image_range = (0, 0), exposure_times = 0, oscillation = (- 0.5, 0.5),
          epochs = [0], deg = True\<rparr>"
proof (intro conjI)
  show "re_match (scan_substring ''foo_bar.tif'') = None"
    using scan_default_iff_no_trailing_digits [of "''foo_bar.tif''"]
    by (simp add: scan_substring_eq is_digit_def)
  show "re_match (scan_substring ''foo_0.tif'') \<noteq> None"
    using scan_default_iff_no_trailing_digits [of "''foo_0.tif''"]
    by (simp add: scan_substring_eq is_digit_def)
  show "scan_index ''foo_0.tif'' = 0"
    using scan_default_iff_no_trailing_digits [of "''foo_0.tif''"] by simp
  show "scan_index ''foo_7.tif'' = py_int ''7''"
    using scan_default_iff_no_trailing_digits [of "''foo_7.tif''"]
    by (simp add: scan_substring_eq is_digit_def trailing_digits_def)
  show "FormatTIFFgeneric_scan ''foo_0.tif'' =
     Inr \<lparr>image_range = (0, 0), exposure_times = 0, oscillation = (- 0.5, 0.5),
          epochs = [0], deg = True\<rparr>"
    using scan_default_iff_no_trailing_digits [of "''foo_0.tif''"] by simp
qed

section \<open>Trusted ranges\<close>

text \<open>
  Claim C9. The trusted range of every detector is \<open>(-1, 2 ^ n - 1)\<close> for the dynamic
  range \<open>n\<close> its method declares: 12 for Merlin, which gives (-1, 4095), 16 for Medipix,
  which gives (-1, 65535), 14 for FEI Tecnai G2 and 20 for ASI, UED and UED-BNL.
\<close>

theorem trusted_range_of_dynamic_range:
  "trusted_range Merlin_detector = (- 1, 2 ^ 12 - 1) \<and>
   trusted_range Merlin_detector = (- 1, 4095) \<and>
   trusted_range Medipix_detector = (- 1, 2 ^ 16 - 1) \<and>
   trusted_range Medipix_detector = (- 1, 65535) \<and>
   trusted_range FEI_Tecnai_G2_detector = (- 1, 2 ^ 14 - 1) \<and>
   trusted_range ASI_detector = (- 1, 2 ^ 20 - 1) \<and>
   trusted_range UED_detector = (- 1, 2 ^ 20 - 1) \<and>
   trusted_range UED_BNL_detector = (- 1, 2 ^ 20 - 1)"
  by (simp add: Merlin_detector_def Medipix_detector_def FEI_Tecnai_G2_detector_def
      ASI_detector_def UED_detector_def UED_BNL_detector_def simple_def Let_def)

end
